theory Spec2Isabelle
  imports Main
begin

section \<open>Errors\<close>

text \<open>
  Every way the Python of \<^verbatim>\<open>pipeline.py\<close> can stop early is a value of this type.
  \<^item> \<open>LengthMismatch\<close>: \<^verbatim>\<open>util.safe_zip\<close> / \<^verbatim>\<open>util.safe_map\<close> (bound to
    \<^verbatim>\<open>zip\<close> and \<^verbatim>\<open>map\<close> at the top of the module) were given sequences of
    different lengths.
  \<^item> \<open>UnboundAxis\<close>: an index map was called with fewer grid indices than it reads.
  \<^item> \<open>ReduceOfEmpty\<close>: \<^verbatim>\<open>functools.reduce\<close> without an initial value on an empty
    sequence.
  \<^item> \<open>AssertionFailed\<close>: one of the two \<^verbatim>\<open>assert\<close> statements of the loop body.
  \<^item> \<open>IndexOutOfRange\<close>: \<^verbatim>\<open>last_store_slices[idx]\<close> past the end of the list.
  \<^item> \<open>NegativeIslice\<close>: \<^verbatim>\<open>itertools.islice\<close> with a negative stop.
  \<^item> \<open>ZeroDivision\<close>: Python's \<^verbatim>\<open>%\<close> on host integers with divisor zero.
  \<^item> \<open>DeviceDivisionByZero\<close>: a division or remainder by zero on device values
    (\<^verbatim>\<open>lax.div\<close>, \<^verbatim>\<open>lax.rem\<close>, \<^verbatim>\<open>%\<close> on a traced value). The backend leaves the
    result implementation-defined, so the model assigns none and stops there.
  \<^item> \<open>HostIntegerOverflow\<close>: a host integer that does not fit the 32-bit device integer
    type met a device value in an arithmetic operation or a comparison (Python's
    \<^verbatim>\<open>OverflowError\<close>).
\<close>

datatype error =
    LengthMismatch
  | UnboundAxis
  | ReduceOfEmpty
  | AssertionFailed
  | IndexOutOfRange
  | NegativeIslice
  | ZeroDivision
  | DeviceDivisionByZero
  | HostIntegerOverflow

section \<open>Grid index arithmetic\<close>

text \<open>
  \<^verbatim>\<open>lax.div\<close> and \<^verbatim>\<open>lax.rem\<close> on integers round towards zero; the sign of the
  remainder follows the dividend.

  The grid indices are device values: 32-bit signed integers, whose arithmetic wraps around.
  \<^verbatim>\<open>_inc_grid\<close> is embedded twice. \<open>inc_axis32\<close>, \<open>inc_loop32\<close> and
  \<open>inc_grid32\<close> below are the function as it runs, on 32-bit values; what is stated about
  \<^verbatim>\<open>_inc_grid\<close> itself is stated about them. \<open>inc_axis\<close>, \<open>inc_loop\<close> and
  \<open>inc_grid\<close> are the same text read over the mathematical integers; they agree with the
  32-bit functions as long as no sum leaves the 32-bit range (lemma
  \<open>inc_grid32_eq_inc_grid\<close>), and the schedule of the pipeline is described with them:
  it is the schedule of the grids and depths whose sizes and step numbers stay in that range.
\<close>

definition lax_div :: "int \<Rightarrow> int \<Rightarrow> int" where
  "lax_div a b = sgn a * sgn b * (\<bar>a\<bar> div \<bar>b\<bar>)"

definition lax_rem :: "int \<Rightarrow> int \<Rightarrow> int" where
  "lax_rem a b = sgn a * (\<bar>a\<bar> mod \<bar>b\<bar>)"

text \<open>
  One iteration of the loop of \<^verbatim>\<open>_inc_grid\<close>: \<^verbatim>\<open>idx += carry\<close>, then the nested
  \<^verbatim>\<open>jax.lax.cond\<close>, read over the mathematical integers. The result is the pair
  \<^verbatim>\<open>(new_idx, carry)\<close>; the source's \<^verbatim>\<open>size\<close> is written \<open>sz\<close> (\<open>size\<close> is a
  constant of HOL).
\<close>

definition inc_axis :: "int \<Rightarrow> int \<Rightarrow> int \<Rightarrow> error + (int \<times> int)" where
  "inc_axis idx0 sz carry =
     (let idx = idx0 + carry in
      if idx < 2 * sz then
        (if idx < sz then Inr (idx, 0) else Inr (idx - sz, 1))
      else if sz = 0 then Inl DeviceDivisionByZero
      else Inr (lax_rem idx sz, lax_div idx sz))"

text \<open>
  The \<^verbatim>\<open>for idx, size in reversed(zip(indices, grid))\<close> loop, with its two variables
  \<^verbatim>\<open>new_indices\<close> and \<^verbatim>\<open>carry\<close> passed as state. The first argument is the
  already reversed list of pairs.
\<close>

fun inc_loop :: "(int \<times> int) list \<Rightarrow> int list \<Rightarrow> int \<Rightarrow> error + (int list \<times> int)" where
  "inc_loop [] new_indices carry = Inr (new_indices, carry)"
| "inc_loop ((idx, sz) # rest) new_indices carry =
     (case inc_axis idx sz carry of
        Inl e \<Rightarrow> Inl e
      | Inr (new_idx, carry') \<Rightarrow> inc_loop rest (new_indices @ [new_idx]) carry')"

text \<open>\<^verbatim>\<open>_inc_grid(indices, grid, by)\<close>; \<^verbatim>\<open>zip\<close> is \<^verbatim>\<open>safe_zip\<close>.\<close>

definition inc_grid :: "int list \<Rightarrow> int list \<Rightarrow> int \<Rightarrow> error + int list" where
  "inc_grid indices grid by =
     (if length indices \<noteq> length grid then Inl LengthMismatch
      else case inc_loop (rev (zip indices grid)) [] by of
             Inl e \<Rightarrow> Inl e
           | Inr (new_indices, carry) \<Rightarrow> Inr (rev new_indices))"

text \<open>
  The specification's reading of the same operation, written from its words (a mixed-radix
  counter with the grid shape as radix vector, carry propagating from the last axis to the
  first, every digit by plain division and remainder). It returns the new digits and the
  carry out of the first axis.
\<close>

fun radix_advance :: "int list \<Rightarrow> int list \<Rightarrow> int \<Rightarrow> int list \<times> int" where
  "radix_advance (i # idxs) (g # gs) by =
     (let (rest, c) = radix_advance idxs gs by
      in (((i + c) mod g) # rest, (i + c) div g))"
| "radix_advance _ _ by = ([], by)"

text \<open>An index tuple is in range for a grid: same rank, and \<open>0 \<le> idx < size\<close> on every axis.\<close>

definition in_range :: "int list \<Rightarrow> int list \<Rightarrow> bool" where
  "in_range indices grid =
     (length indices = length grid \<and> list_all (\<lambda>(i, g). 0 \<le> i \<and> i < g) (zip indices grid))"

text \<open>Chaining two fallible steps, as two consecutive Python calls do.\<close>

definition and_then :: "error + 'a \<Rightarrow> ('a \<Rightarrow> error + 'b) \<Rightarrow> error + 'b" where
  "and_then r f = (case r of Inl e \<Rightarrow> Inl e | Inr x \<Rightarrow> f x)"

text \<open>
  The 32-bit signed integers of the device, as the integers from \<open>-2^31\<close> to
  \<open>2^31 - 1\<close>: \<open>wrap32\<close> is what an arithmetic result becomes (two's complement
  wrap-around), \<open>fits32\<close> says that a host integer can be converted at all.
\<close>

definition fits32 :: "int \<Rightarrow> bool" where
  "fits32 x = (- (2 ^ 31) \<le> x \<and> x < 2 ^ 31)"

definition wrap32 :: "int \<Rightarrow> int" where
  "wrap32 x = (x + 2 ^ 31) mod 2 ^ 32 - 2 ^ 31"

text \<open>
  \<^verbatim>\<open>_inc_grid\<close> on device values. \<^verbatim>\<open>idx\<close>, the carries and the new indices are
  32-bit; \<^verbatim>\<open>size\<close> and \<^verbatim>\<open>2 * size\<close> are host integers (\<^verbatim>\<open>2 * size\<close> is computed
  by Python, without wrap-around) that are converted when they meet \<^verbatim>\<open>idx\<close>, and so is
  \<^verbatim>\<open>by\<close> when it is a host integer; a carry computed by an earlier axis always fits.
\<close>

definition inc_axis32 :: "int \<Rightarrow> int \<Rightarrow> int \<Rightarrow> error + (int \<times> int)" where
  "inc_axis32 idx0 sz carry =
     (if \<not> fits32 carry \<or> \<not> fits32 sz \<or> \<not> fits32 (2 * sz) then Inl HostIntegerOverflow
      else
        let idx = wrap32 (idx0 + carry) in
        if idx < 2 * sz then
          (if idx < sz then Inr (idx, 0) else Inr (wrap32 (idx - sz), 1))
        else if sz = 0 then Inl DeviceDivisionByZero
        else Inr (lax_rem idx sz, lax_div idx sz))"

fun inc_loop32 :: "(int \<times> int) list \<Rightarrow> int list \<Rightarrow> int \<Rightarrow> error + (int list \<times> int)" where
  "inc_loop32 [] new_indices carry = Inr (new_indices, carry)"
| "inc_loop32 ((idx, sz) # rest) new_indices carry =
     (case inc_axis32 idx sz carry of
        Inl e \<Rightarrow> Inl e
      | Inr (new_idx, carry') \<Rightarrow> inc_loop32 rest (new_indices @ [new_idx]) carry')"

definition inc_grid32 :: "int list \<Rightarrow> int list \<Rightarrow> int \<Rightarrow> error + int list" where
  "inc_grid32 indices grid by =
     (if length indices \<noteq> length grid then Inl LengthMismatch
      else case inc_loop32 (rev (zip indices grid)) [] by of
             Inl e \<Rightarrow> Inl e
           | Inr (new_indices, carry) \<Rightarrow> Inr (rev new_indices))"

text \<open>
  No sum of \<^verbatim>\<open>_inc_grid\<close> leaves the 32-bit range when it starts from in-range
  indices: an index is below its size and no carry exceeds \<open>by\<close>, so \<open>size + by \<le> 2^31\<close>
  on every axis keeps \<^verbatim>\<open>idx + carry\<close> in range, and \<open>2 * size < 2^31\<close> lets the
  comparison be made.
\<close>

definition no_overflow :: "int list \<Rightarrow> int \<Rightarrow> bool" where
  "no_overflow grid by = list_all (\<lambda>g. g + by \<le> 2 ^ 31 \<and> 2 * g < 2 ^ 31) grid"

section \<open>Index maps and block specifications\<close>

text \<open>
  Modelled from the spec: the index-mapping function of a block specification. The class
  \<^verbatim>\<open>pallas_core.BlockSpec\<close> and the tracer that reads an index map
  (\<^verbatim>\<open>pe.trace_to_jaxpr_dynamic\<close>) are not part of \<^verbatim>\<open>pipeline.py\<close>. The
  specification asks for the mapping
  "to be expressed in a restricted symbolic form that makes axis usage syntactically
  evident"; this is that form: one expression per block coordinate, over the grid axes
  (numbered from 0), integer literals, and the arithmetic an index map is traced to.
\<close>

datatype iexpr =
    Axis nat
  | Lit int
  | Add iexpr iexpr
  | Sub iexpr iexpr
  | Mul iexpr iexpr

text \<open>Calling the index map on grid indices: \<^verbatim>\<open>index_map(*grid_indices)\<close>.\<close>

fun eval_iexpr :: "int list \<Rightarrow> iexpr \<Rightarrow> error + int" where
  "eval_iexpr args (Axis k) = (if k < length args then Inr (args ! k) else Inl UnboundAxis)"
| "eval_iexpr args (Lit c) = Inr c"
| "eval_iexpr args (Add a b) =
     and_then (eval_iexpr args a) (\<lambda>x. and_then (eval_iexpr args b) (\<lambda>y. Inr (x + y)))"
| "eval_iexpr args (Sub a b) =
     and_then (eval_iexpr args a) (\<lambda>x. and_then (eval_iexpr args b) (\<lambda>y. Inr (x - y)))"
| "eval_iexpr args (Mul a b) =
     and_then (eval_iexpr args a) (\<lambda>x. and_then (eval_iexpr args b) (\<lambda>y. Inr (x * y)))"

text \<open>
  Python's \<^verbatim>\<open>map\<close> of a function that may raise: the first error ends the traversal.
\<close>

fun map_err :: "('a \<Rightarrow> error + 'b) \<Rightarrow> 'a list \<Rightarrow> error + 'b list" where
  "map_err f [] = Inr []"
| "map_err f (x # xs) =
     (case f x of
        Inl e \<Rightarrow> Inl e
      | Inr y \<Rightarrow> (case map_err f xs of Inl e \<Rightarrow> Inl e | Inr ys \<Rightarrow> Inr (y # ys)))"

definition call_index_map :: "iexpr list \<Rightarrow> int list \<Rightarrow> error + int list" where
  "call_index_map index_map grid_indices = map_err (eval_iexpr grid_indices) index_map"

text \<open>The grid axes an expression reads.\<close>

fun axes_of :: "iexpr \<Rightarrow> nat list" where
  "axes_of (Axis k) = [k]"
| "axes_of (Lit c) = []"
| "axes_of (Add a b) = axes_of a @ axes_of b"
| "axes_of (Sub a b) = axes_of a @ axes_of b"
| "axes_of (Mul a b) = axes_of a @ axes_of b"

text \<open>
  Modelled from the spec: \<^verbatim>\<open>_uses_arguments(index_map, grid)\<close>. Its body only calls
  \<^verbatim>\<open>pe.trace_to_jaxpr_dynamic\<close> and \<^verbatim>\<open>pe.dce_jaxpr\<close>, which are not in
  \<^verbatim>\<open>pipeline.py\<close>. The specification describes the collaborator: "given an
  index-mapping function and a grid shape, returns, per axis, whether the mapping's output
  depends on that axis", "determined once by static analysis of the mapping function, not by
  runtime evaluation". On the symbolic form an axis is used when some output expression
  mentions it.
\<close>

definition uses_arguments :: "iexpr list \<Rightarrow> int list \<Rightarrow> bool list" where
  "uses_arguments index_map grid =
     map (\<lambda>k. list_ex (\<lambda>e. k \<in> set (axes_of e)) index_map) [0..<length grid]"

text \<open>
  Modelled from the spec: a block specification is "a fixed block shape" and "an
  index-mapping function"; it always carries an index map, so the
  \<^verbatim>\<open>assert index_map is not None\<close> of \<^verbatim>\<open>compute_gmem_slice\<close> cannot fail.
\<close>

record BlockSpec =
  block_shape :: "int list"
  index_map :: "iexpr list"

section \<open>Buffered operands\<close>

text \<open>
  \<^verbatim>\<open>pl.Slice\<close> and the module's own \<^verbatim>\<open>_Slice\<close> both hold a start and a size; the
  loop body copies one into the other field by field, so one type models both.
\<close>

datatype Slice = Slice (slice_start: int) (slice_size: int)

text \<open>\<^verbatim>\<open>_Slice.__eq__\<close>: the conjunction of the two field comparisons.\<close>

definition slice_eq :: "Slice \<Rightarrow> Slice \<Rightarrow> bool" where
  "slice_eq self other =
     (slice_start self = slice_start other \<and> slice_size self = slice_size other)"

text \<open>
  The class \<^verbatim>\<open>BufferedRef\<close>. Memory references are names (numbers); the field
  \<^verbatim>\<open>grid\<close> is written \<open>bref_grid\<close>, since \<open>grid\<close> names the pipeline's grid below.
\<close>

record BufferedRef =
  spec :: BlockSpec
  bref_grid :: "int list"
  gmem_ref :: nat
  smem_ref :: nat

text \<open>
  \<^verbatim>\<open>compute_gmem_slice\<close>. The product \<^verbatim>\<open>idx * size\<close> is written over the mathematical
  integers; on the device a start beyond the 32-bit range wraps, and is compared and
  transferred like any other start. No statement below depends on the magnitude of a start.
\<close>

definition compute_gmem_slice :: "BufferedRef \<Rightarrow> int list \<Rightarrow> error + Slice list" where
  "compute_gmem_slice self grid_indices =
     (case call_index_map (index_map (spec self)) grid_indices of
        Inl e \<Rightarrow> Inl e
      | Inr idxs \<Rightarrow>
          if length idxs \<noteq> length (block_shape (spec self)) then Inl LengthMismatch
          else Inr (map (\<lambda>(idx, sz). Slice (idx * sz) sz) (zip idxs (block_shape (spec self)))))"

definition is_index_invariant :: "BufferedRef \<Rightarrow> bool" where
  "is_index_invariant self =
     (\<not> list_ex (\<lambda>used. used) (uses_arguments (index_map (spec self)) (bref_grid self)))"

text \<open>
  What the pipeline asks of the transfer engine and of the kernel body, in the order it asks.
  \<^item> \<open>CopyGmemToSmem g slices s slot\<close>: \<^verbatim>\<open>copy_gmem_to_smem(g.at[slices], s.at[slot],
    barrier=barrier_ref.at[slot])\<close>.
  \<^item> \<open>CopySmemToGmem s slot g slices p\<close>: \<^verbatim>\<open>copy_smem_to_gmem(s.at[slot],
    g.at[slices], predicate=p)\<close>; \<open>None\<close> is the default \<^verbatim>\<open>predicate=None\<close>.
  \<^item> \<open>BarrierWait slot\<close>, \<open>WaitSmemToGmem n\<close>, \<open>CommitSmem\<close>: the three synchronisation
    primitives.
  \<^item> \<open>RunBody axes refs slot\<close>: the kernel body called on \<^verbatim>\<open>ref.at[slot]\<close> for every
    scratch reference, under the grid environment \<open>axes\<close> (index and size per axis).
\<close>

datatype event =
    CopyGmemToSmem nat "Slice list" nat int
  | CopySmemToGmem nat int nat "Slice list" "bool option"
  | BarrierWait int
  | WaitSmemToGmem int
  | CommitSmem
  | RunBody "(int \<times> int) list" "nat list" int

definition copy_in :: "BufferedRef \<Rightarrow> int \<Rightarrow> int list \<Rightarrow> error + event" where
  "copy_in self slot grid_indices =
     (case compute_gmem_slice self grid_indices of
        Inl e \<Rightarrow> Inl e
      | Inr gmem_slices \<Rightarrow>
          Inr (CopyGmemToSmem (gmem_ref self) gmem_slices (smem_ref self) slot))"

definition copy_out :: "BufferedRef \<Rightarrow> int \<Rightarrow> int list \<Rightarrow> bool option \<Rightarrow> error + event" where
  "copy_out self slot grid_indices predicate =
     (case compute_gmem_slice self grid_indices of
        Inl e \<Rightarrow> Inl e
      | Inr gmem_slices \<Rightarrow>
          Inr (CopySmemToGmem (smem_ref self) slot (gmem_ref self) gmem_slices predicate))"

section \<open>The pipeline scheduler\<close>

text \<open>
  \<^verbatim>\<open>itertools.product\<close> of a list of sequences (the last one varies fastest) and
  \<^verbatim>\<open>range(n)\<close>.
\<close>

fun it_product :: "'a list list \<Rightarrow> 'a list list" where
  "it_product [] = [[]]"
| "it_product (xs # xss) = concat (map (\<lambda>x. map ((#) x) (it_product xss)) xs)"

definition py_range :: "int \<Rightarrow> int list" where
  "py_range n = map int [0..<nat n]"

text \<open>
  The prologue: \<^verbatim>\<open>for step, indices in enumerate(it.islice(it.product(*map(range,
  grid)), max_concurrent_steps))\<close>, copying every input in.
\<close>

definition prologue :: "int list \<Rightarrow> int \<Rightarrow> BufferedRef list \<Rightarrow> error + event list" where
  "prologue grid max_concurrent_steps in_brefs =
     (if max_concurrent_steps < 0 then Inl NegativeIslice
      else
        case map_err
               (\<lambda>(step, indices). map_err (\<lambda>bref. copy_in bref (int step) indices) in_brefs)
               (List.enumerate 0 (take (nat max_concurrent_steps) (it_product (map py_range grid))))
        of
          Inl e \<Rightarrow> Inl e
        | Inr copies \<Rightarrow> Inr (concat copies))"

text \<open>
  \<^verbatim>\<open>functools.reduce(lax.bitwise_and, are_same_slices)\<close>: no initial value, so an empty
  sequence raises.
\<close>

fun reduce_and :: "bool list \<Rightarrow> error + bool" where
  "reduce_and [] = Inl ReduceOfEmpty"
| "reduce_and (x # xs) = Inr (foldl (\<and>) x xs)"

text \<open>
  The \<^verbatim>\<open>for idx, bref in enumerate(out_brefs)\<close> loop of the loop body. Its state is the
  list of transfers issued so far and \<^verbatim>\<open>new_store_slices\<close>; \<^verbatim>\<open>last_store_slices\<close> is
  only read. An entry of either list is \<open>None\<close> or the tuple of slices last stored.
\<close>

fun store_outputs ::
  "int \<Rightarrow> int \<Rightarrow> int \<Rightarrow> int list \<Rightarrow> Slice list option list \<Rightarrow> (nat \<times> BufferedRef) list \<Rightarrow>
   event list \<Rightarrow> Slice list option list \<Rightarrow> error + (event list \<times> Slice list option list)"
where
  "store_outputs num_steps step slot indices last_store_slices [] issued new_store_slices =
     Inr (issued, new_store_slices)"
| "store_outputs num_steps step slot indices last_store_slices ((idx, bref) # rest) issued
     new_store_slices =
     (if length last_store_slices \<le> idx then Inl IndexOutOfRange
      else if is_index_invariant bref then
        (if last_store_slices ! idx = None
         then store_outputs num_steps step slot indices last_store_slices rest issued
                new_store_slices
         else Inl AssertionFailed)
      else
        case last_store_slices ! idx of
          None \<Rightarrow> Inl AssertionFailed
        | Some old_slices \<Rightarrow>
            (case compute_gmem_slice bref indices of
               Inl e \<Rightarrow> Inl e
             | Inr new_slices \<Rightarrow>
                 if length old_slices \<noteq> length new_slices then Inl LengthMismatch
                 else
                   case reduce_and (map (\<lambda>(old, new). slice_eq old new)
                                      (zip old_slices new_slices)) of
                     Inl e \<Rightarrow> Inl e
                   | Inr same \<Rightarrow>
                       let slices_changed = \<not> same;
                           is_last_step = (step = num_steps - 1)
                       in case copy_out bref slot indices
                                 (Some (slices_changed \<or> is_last_step)) of
                            Inl e \<Rightarrow> Inl e
                          | Inr ev \<Rightarrow>
                              store_outputs num_steps step slot indices last_store_slices rest
                                (issued @ [ev])
                                (new_store_slices[idx := Some new_slices])))"

text \<open>
  \<^verbatim>\<open>loop_body(step, carry)\<close>. The variables it closes over (\<^verbatim>\<open>grid\<close>,
  \<^verbatim>\<open>num_steps\<close>, the clamped \<^verbatim>\<open>max_concurrent_steps\<close>, \<^verbatim>\<open>in_specs\<close> and the two
  lists of buffered operands) are parameters. It returns the calls it issued and the new
  carry. A transfer under \<^verbatim>\<open>jax.lax.cond\<close> is issued when the condition holds at
  run time.
\<close>

definition loop_body ::
  "int list \<Rightarrow> int \<Rightarrow> int \<Rightarrow> BlockSpec list \<Rightarrow> BufferedRef list \<Rightarrow> BufferedRef list \<Rightarrow>
   int \<Rightarrow> int list \<times> Slice list option list \<Rightarrow>
   error + (event list \<times> (int list \<times> Slice list option list))"
where
  "loop_body grid num_steps max_concurrent_steps in_specs in_brefs out_brefs step carry =
     (case carry of (indices, last_store_slices) \<Rightarrow>
        if max_concurrent_steps = 0 then Inl DeviceDivisionByZero
        else if length indices \<noteq> length grid then Inl LengthMismatch
        else
          let slot = step mod max_concurrent_steps;
              waits = (if in_specs \<noteq> [] then [BarrierWait slot] else [])
                        @ [WaitSmemToGmem (max_concurrent_steps - 1)];
              run = [RunBody (zip indices grid) (map smem_ref (in_brefs @ out_brefs)) slot];
              commit = (if \<not> list_all is_index_invariant out_brefs then [CommitSmem] else [])
          in case store_outputs num_steps step slot indices last_store_slices
                    (List.enumerate 0 out_brefs) [] last_store_slices of
               Inl e \<Rightarrow> Inl e
             | Inr (stores, new_store_slices) \<Rightarrow>
                 let fetch_step = step + max_concurrent_steps;
                     fetch_slot = slot
                 in case (if fetch_step < num_steps
                          then map_err
                                 (\<lambda>bref. and_then (inc_grid indices grid max_concurrent_steps)
                                                   (copy_in bref fetch_slot))
                                 in_brefs
                          else Inr []) of
                      Inl e \<Rightarrow> Inl e
                    | Inr fetches \<Rightarrow>
                        (case inc_grid indices grid 1 of
                           Inl e \<Rightarrow> Inl e
                         | Inr next_indices \<Rightarrow>
                             Inr (waits @ run @ commit @ stores @ fetches,
                                  (next_indices, new_store_slices))))"

text \<open>
  \<^verbatim>\<open>lax.fori_loop(lower, upper, body, init)\<close>: the body runs for
  \<open>lower, lower + 1, \<dots>, upper - 1\<close>; the calls issued by the iterations are concatenated.
\<close>

fun fori_steps ::
  "(int \<Rightarrow> 'c \<Rightarrow> error + (event list \<times> 'c)) \<Rightarrow> int \<Rightarrow> nat \<Rightarrow> 'c \<Rightarrow> error + (event list \<times> 'c)"
where
  "fori_steps body i 0 c = Inr ([], c)"
| "fori_steps body i (Suc n) c =
     (case body i c of
        Inl e \<Rightarrow> Inl e
      | Inr (evs, c') \<Rightarrow>
          (case fori_steps body (i + 1) n c' of
             Inl e \<Rightarrow> Inl e
           | Inr (evs', c'') \<Rightarrow> Inr (evs @ evs', c'')))"

definition fori_loop ::
  "int \<Rightarrow> int \<Rightarrow> (int \<Rightarrow> 'c \<Rightarrow> error + (event list \<times> 'c)) \<Rightarrow> 'c \<Rightarrow> error + (event list \<times> 'c)"
where
  "fori_loop lower upper body init = fori_steps body lower (nat (upper - lower)) init"

text \<open>The seed of the destination-slice records, built just before the loop.\<close>

definition initial_store_slices :: "BufferedRef list \<Rightarrow> Slice list option list" where
  "initial_store_slices out_brefs =
     map (\<lambda>bref. if is_index_invariant bref then None
                  else Some (replicate (length (block_shape (spec bref))) (Slice (- 1) (- 1))))
         out_brefs"

text \<open>The \<^verbatim>\<open>lax.fori_loop(0, num_steps, loop_body, \<dots>)\<close> call of \<^verbatim>\<open>scoped_pipeline\<close>.\<close>

definition steady_state ::
  "int list \<Rightarrow> int \<Rightarrow> int \<Rightarrow> BlockSpec list \<Rightarrow> BufferedRef list \<Rightarrow> BufferedRef list \<Rightarrow>
   error + (event list \<times> (int list \<times> Slice list option list))"
where
  "steady_state grid num_steps max_concurrent_steps in_specs in_brefs out_brefs =
     fori_loop 0 num_steps
       (loop_body grid num_steps max_concurrent_steps in_specs in_brefs out_brefs)
       (replicate (length grid) 0, initial_store_slices out_brefs)"

text \<open>
  The statements of \<^verbatim>\<open>scoped_pipeline\<close> after the loop. \<^verbatim>\<open>last_slot\<close> is computed on
  host integers, so a zero \<^verbatim>\<open>max_concurrent_steps\<close> raises.
\<close>

definition epilogue :: "int list \<Rightarrow> int \<Rightarrow> int \<Rightarrow> BufferedRef list \<Rightarrow> error + event list" where
  "epilogue grid num_steps max_concurrent_steps out_brefs =
     (let commit = (if list_all is_index_invariant out_brefs then [CommitSmem] else [])
      in if max_concurrent_steps = 0 then Inl ZeroDivision
         else
           let last_slot = (num_steps - 1) mod max_concurrent_steps
           in case map_err (\<lambda>bref. copy_out bref last_slot (replicate (length grid) 0) None)
                     (filter is_index_invariant out_brefs) of
                Inl e \<Rightarrow> Inl e
              | Inr stores \<Rightarrow> Inr (commit @ stores @ [WaitSmemToGmem 0]))"

text \<open>The list comprehensions that build \<^verbatim>\<open>in_brefs\<close> and \<^verbatim>\<open>out_brefs\<close>.\<close>

definition make_brefs ::
  "int list \<Rightarrow> BlockSpec list \<Rightarrow> nat list \<Rightarrow> nat list \<Rightarrow> error + BufferedRef list"
where
  "make_brefs grid specs gmem_refs smem_refs =
     (if length specs \<noteq> length gmem_refs \<or> length specs \<noteq> length smem_refs
      then Inl LengthMismatch
      else Inr (map (\<lambda>(sp, g, s). \<lparr>spec = sp, bref_grid = grid, gmem_ref = g, smem_ref = s\<rparr>)
                    (zip specs (zip gmem_refs smem_refs))))"

definition scoped_pipeline ::
  "int list \<Rightarrow> int \<Rightarrow> int \<Rightarrow> BlockSpec list \<Rightarrow> BlockSpec list \<Rightarrow>
   nat list \<Rightarrow> nat list \<Rightarrow> nat list \<Rightarrow> nat list \<Rightarrow> error + event list"
where
  "scoped_pipeline grid num_steps max_concurrent_steps in_specs out_specs
     in_gmem_refs out_gmem_refs in_smem_refs out_smem_refs =
     and_then (make_brefs grid in_specs in_gmem_refs in_smem_refs) (\<lambda>in_brefs.
     and_then (make_brefs grid out_specs out_gmem_refs out_smem_refs) (\<lambda>out_brefs.
     and_then (prologue grid max_concurrent_steps in_brefs) (\<lambda>pro.
     and_then (steady_state grid num_steps max_concurrent_steps in_specs in_brefs out_brefs)
       (\<lambda>(steady, carry).
     and_then (epilogue grid num_steps max_concurrent_steps out_brefs) (\<lambda>epi.
     Inr (pro @ steady @ epi))))))"

text \<open>
  What \<^verbatim>\<open>pipeline(*gmem_refs)\<close> leaves behind: the scratch buffers and the barrier that
  \<^verbatim>\<open>pl.run_scoped\<close> allocates (shape \<^verbatim>\<open>(max_concurrent_steps, *block_shape)\<close> per
  operand; \<^verbatim>\<open>Barrier(len(in_specs), num_barriers=max_concurrent_steps)\<close>) and the calls
  issued. The scratch reference of the \<open>k\<close>-th operand is named \<open>k\<close>.
\<close>

record pipeline_run =
  smem_shapes :: "int list list"
  barrier :: "int \<times> int"
  issued_calls :: "event list"

definition pipeline ::
  "int list \<Rightarrow> int \<Rightarrow> int \<Rightarrow> BlockSpec list \<Rightarrow> BlockSpec list \<Rightarrow> nat list \<Rightarrow>
   error + pipeline_run"
where
  "pipeline grid num_steps max_concurrent_steps in_specs out_specs gmem_refs =
     (if length (in_specs @ out_specs) \<noteq> length gmem_refs then Inl LengthMismatch
      else
        let in_gmem_refs = take (length in_specs) gmem_refs;
            out_gmem_refs = drop (length in_specs) gmem_refs;
            shapes = map (\<lambda>sp. max_concurrent_steps # block_shape sp) (in_specs @ out_specs);
            smem_refs = [0..<length shapes];
            in_smem_refs = take (length in_specs) smem_refs;
            out_smem_refs = drop (length in_specs) smem_refs
        in case scoped_pipeline grid num_steps max_concurrent_steps in_specs out_specs
                  in_gmem_refs out_gmem_refs in_smem_refs out_smem_refs of
             Inl e \<Rightarrow> Inl e
           | Inr calls \<Rightarrow>
               Inr \<lparr>smem_shapes = shapes,
                    barrier = (int (length in_specs), max_concurrent_steps),
                    issued_calls = calls\<rparr>)"

text \<open>
  \<^verbatim>\<open>emit_pipeline(body, grid=\<dots>, in_specs=\<dots>, out_specs=\<dots>, max_concurrent_steps=\<dots>)\<close>:
  the returned \<^verbatim>\<open>pipeline\<close>, as a function of the bulk-memory references. The kernel body
  is opaque; each call of it is a \<open>RunBody\<close> event.
\<close>

definition emit_pipeline ::
  "int list \<Rightarrow> BlockSpec list \<Rightarrow> BlockSpec list \<Rightarrow> int \<Rightarrow> nat list \<Rightarrow> error + pipeline_run"
where
  "emit_pipeline grid in_specs out_specs max_concurrent_steps =
     (let num_steps = prod_list grid;
          max_concurrent_steps =
            (if max_concurrent_steps > num_steps then num_steps else max_concurrent_steps)
      in pipeline grid num_steps max_concurrent_steps in_specs out_specs)"

section \<open>Notions used in the statements\<close>

text \<open>
  The mixed-radix digits of a step number over the grid shape, last axis fastest: the digit of
  an axis is the step number divided by the product of the sizes to its right, modulo the
  size of the axis.
\<close>

fun unravel :: "int list \<Rightarrow> int \<Rightarrow> int list" where
  "unravel [] s = []"
| "unravel (g # gs) s = ((s div prod_list gs) mod g) # unravel gs s"






text \<open>The bulk-memory region of an operand at given grid indices, where it is defined.\<close>

definition gmem_region :: "BufferedRef \<Rightarrow> int list \<Rightarrow> Slice list" where
  "gmem_region bref grid_indices =
     (case compute_gmem_slice bref grid_indices of Inl e \<Rightarrow> [] | Inr slices \<Rightarrow> slices)"

text \<open>
  The destination-slice record of an output when step \<open>s\<close> begins: the seed at step 0, the
  region of step \<open>s - 1\<close> afterwards.
\<close>

definition record_before :: "int list \<Rightarrow> BufferedRef \<Rightarrow> int \<Rightarrow> Slice list" where
  "record_before grid bref s =
     (if s = 0 then replicate (length (block_shape (spec bref))) (Slice (- 1) (- 1))
      else gmem_region bref (unravel grid (s - 1)))"


text \<open>The calls of one loop step, written out.\<close>

definition step_stores :: "int list \<Rightarrow> int \<Rightarrow> int \<Rightarrow> BufferedRef list \<Rightarrow> int \<Rightarrow> event list" where
  "step_stores grid num_steps max_concurrent_steps out_brefs s =
     map (\<lambda>bref. CopySmemToGmem (smem_ref bref) (s mod max_concurrent_steps) (gmem_ref bref)
                    (gmem_region bref (unravel grid s))
                    (Some (gmem_region bref (unravel grid s) \<noteq> record_before grid bref s
                           \<or> s = num_steps - 1)))
         (filter (\<lambda>bref. \<not> is_index_invariant bref) out_brefs)"

definition step_fetches :: "int list \<Rightarrow> int \<Rightarrow> int \<Rightarrow> BufferedRef list \<Rightarrow> int \<Rightarrow> event list" where
  "step_fetches grid num_steps max_concurrent_steps in_brefs s =
     (if s + max_concurrent_steps < num_steps
      then map (\<lambda>bref. CopyGmemToSmem (gmem_ref bref)
                         (gmem_region bref (unravel grid (s + max_concurrent_steps)))
                         (smem_ref bref) (s mod max_concurrent_steps))
               in_brefs
      else [])"

definition step_calls ::
  "int list \<Rightarrow> int \<Rightarrow> int \<Rightarrow> BlockSpec list \<Rightarrow> BufferedRef list \<Rightarrow> BufferedRef list \<Rightarrow>
   int \<Rightarrow> event list"
where
  "step_calls grid num_steps max_concurrent_steps in_specs in_brefs out_brefs s =
     (if in_specs \<noteq> [] then [BarrierWait (s mod max_concurrent_steps)] else [])
     @ [WaitSmemToGmem (max_concurrent_steps - 1)]
     @ [RunBody (zip (unravel grid s) grid) (map smem_ref (in_brefs @ out_brefs))
          (s mod max_concurrent_steps)]
     @ (if \<not> list_all is_index_invariant out_brefs then [CommitSmem] else [])
     @ step_stores grid num_steps max_concurrent_steps out_brefs s
     @ step_fetches grid num_steps max_concurrent_steps in_brefs s"



fun is_commit :: "event \<Rightarrow> bool" where
  "is_commit CommitSmem = True"
| "is_commit _ = False"



text \<open>
  Operands of a one-axis grid of three steps, with blocks of four elements: one whose block
  moves with the grid axis, one whose block stays at the origin, and one that reads the axis
  but lands on the same block at every step.
\<close>

definition ex_spec_moving :: BlockSpec where
  "ex_spec_moving = \<lparr>block_shape = [4], index_map = [Axis 0]\<rparr>"

definition ex_spec_fixed :: BlockSpec where
  "ex_spec_fixed = \<lparr>block_shape = [4], index_map = [Lit 0]\<rparr>"


definition ex_operand :: "BlockSpec \<Rightarrow> nat \<Rightarrow> nat \<Rightarrow> BufferedRef" where
  "ex_operand sp g s = \<lparr>spec = sp, bref_grid = [3], gmem_ref = g, smem_ref = s\<rparr>"

section \<open>Proofs\<close>


lemma lax_nonneg: "0 \<le> a \<Longrightarrow> 0 < b \<Longrightarrow> lax_rem a b = a mod b \<and> lax_div a b = a div b"
  by (cases "a = 0") (simp_all add: lax_rem_def lax_div_def)

lemma inc_axis_divmod:
  assumes "0 \<le> i + c" and "0 < g"
  shows "inc_axis i g c = Inr ((i + c) mod g, (i + c) div g)"
proof -
  let ?x = "i + c"
  consider "?x < g" | "g \<le> ?x" "?x < 2 * g" | "2 * g \<le> ?x" by linarith
  then show ?thesis
  proof cases
    case 1
    with assms show ?thesis by (simp add: inc_axis_def Let_def div_pos_pos_trivial)
  next
    case 2
    have "?x = (?x - g) + 1 * g" by simp
    then have m: "?x mod g = ?x - g" and d: "?x div g = 1"
      using 2 assms
       apply (metis add.commute diff_ge_0_iff_ge diff_less_eq mod_mult_self1 mod_pos_pos_trivial mult_2 mult.commute)
      using 2 assms by (simp add: int_div_pos_eq[where r = "i + c - g"])
    from 2 m d show ?thesis by (simp add: inc_axis_def Let_def)
  next
    case 3
    with assms lax_nonneg[of ?x g] show ?thesis by (simp add: inc_axis_def Let_def)
  qed
qed

lemma inc_loop_append:
  "inc_loop (ps @ qs) acc c =
     (case inc_loop ps acc c of Inl e \<Rightarrow> Inl e | Inr (acc', c') \<Rightarrow> inc_loop qs acc' c')"
  by (induction ps acc c rule: inc_loop.induct) (auto split: sum.splits)

lemma radix_advance_props:
  assumes "in_range idxs gs" and "0 \<le> by"
  shows "0 \<le> snd (radix_advance idxs gs by) \<and> in_range (fst (radix_advance idxs gs by)) gs"
  using assms
proof (induction idxs gs "by" rule: radix_advance.induct)
  case (1 i idxs g gs b)
  then show ?case
    by (auto simp: in_range_def split: prod.splits simp: pos_imp_zdiv_nonneg_iff)
qed (auto simp: in_range_def)

lemma inc_loop_radix:
  assumes "in_range idxs gs" and "0 \<le> by"
  shows "inc_loop (rev (zip idxs gs)) acc by =
           Inr (acc @ rev (fst (radix_advance idxs gs by)), snd (radix_advance idxs gs by))"
  using assms
proof (induction idxs gs "by" arbitrary: acc rule: radix_advance.induct)
  case (1 i idxs g gs b)
  then have tl: "in_range idxs gs" and ig: "0 \<le> i" "i < g" by (auto simp: in_range_def)
  from radix_advance_props[OF tl 1(3)] have c: "0 \<le> snd (radix_advance idxs gs b)" by simp
  show ?case
    using 1(1)[OF tl 1(3)] ig c
    by (simp add: inc_loop_append inc_axis_divmod split: prod.splits)
qed (auto simp: in_range_def)


lemma inc_grid_eq_radix:
  assumes "in_range idxs gs" and "0 \<le> by"
  shows "inc_grid idxs gs by = Inr (fst (radix_advance idxs gs by))"
  using assms inc_loop_radix[OF assms, of "[]"] by (simp add: inc_grid_def in_range_def)

lemma radix_advance_add:
  assumes "in_range idxs gs"
  shows "fst (radix_advance (fst (radix_advance idxs gs a)) gs b) = fst (radix_advance idxs gs (a + b))
       \<and> snd (radix_advance idxs gs a) + snd (radix_advance (fst (radix_advance idxs gs a)) gs b)
           = snd (radix_advance idxs gs (a + b))"
  using assms
proof (induction idxs gs a arbitrary: b rule: radix_advance.induct)
  case (1 i idxs g gs a)
  then have tl: "in_range idxs gs" and g: "0 < g" by (auto simp: in_range_def)
  obtain r1 c1 where e1: "radix_advance idxs gs a = (r1, c1)" by (cases "radix_advance idxs gs a")
  obtain r2 c2 where e2: "radix_advance r1 gs b = (r2, c2)" by (cases "radix_advance r1 gs b")
  obtain r3 c3 where e3: "radix_advance idxs gs (a + b) = (r3, c3)" by (cases "radix_advance idxs gs (a + b)")
  from 1(1)[OF tl, of b] e1 e2 e3 have r: "r2 = r3" and c: "c1 + c2 = c3" by simp_all
  have m: "((i + c1) mod g + c2) mod g = (i + c3) mod g"
    using c by (metis add.assoc mod_add_left_eq)
  have d: "(i + c1) div g + ((i + c1) mod g + c2) div g = (i + c3) div g"
  proof -
    have "i + c3 = (i + c1) div g * g + ((i + c1) mod g + c2)" using c by (simp add: algebra_simps)
    then show ?thesis using g by (metis div_mult_self3 less_irrefl add.commute)
  qed
  show ?case using e1 e2 e3 r m d by simp
qed (auto simp: in_range_def)

lemma radix_advance_wrap:
  assumes "in_range idxs gs"
  shows "fst (radix_advance idxs gs (by + prod_list gs * k)) = fst (radix_advance idxs gs by)
       \<and> snd (radix_advance idxs gs (by + prod_list gs * k)) = snd (radix_advance idxs gs by) + k"
  using assms
proof (induction idxs gs "by" arbitrary: k rule: radix_advance.induct)
  case (1 i idxs g gs b)
  then have tl: "in_range idxs gs" and g: "0 < g" by (auto simp: in_range_def)
  have e: "b + g * prod_list gs * k = b + prod_list gs * (g * k)" by (simp add: algebra_simps)
  from 1(1)[OF tl, of "g * k"]
  have f: "fst (radix_advance idxs gs (b + g * prod_list gs * k)) = fst (radix_advance idxs gs b)"
    and s: "snd (radix_advance idxs gs (b + g * prod_list gs * k)) = snd (radix_advance idxs gs b) + g * k"
    unfolding e by simp_all
  have "(i + (snd (radix_advance idxs gs b) + g * k)) div g = (i + snd (radix_advance idxs gs b)) div g + k"
    using g by (simp add: add.assoc[symmetric])
  moreover have "(i + (snd (radix_advance idxs gs b) + g * k)) mod g = (i + snd (radix_advance idxs gs b)) mod g"
    by (simp add: add.assoc[symmetric])
  ultimately show ?case using f s
    by (simp add: split_beta Let_def)
qed (auto simp: in_range_def)


lemma wrap32_fits: "fits32 x \<Longrightarrow> wrap32 x = x"
  by (simp add: fits32_def wrap32_def)

lemma inc_axis32_eq_inc_axis:
  assumes "0 \<le> i + c" and "i + c < 2 ^ 31" and "0 < g" and "2 * g < 2 ^ 31" and "fits32 c"
  shows "inc_axis32 i g c = inc_axis i g c"
proof -
  have f: "fits32 (i + c)" "fits32 g" "fits32 (2 * g)"
    using assms by (simp_all add: fits32_def)
  have d: "fits32 (i + c - g)" if "g \<le> i + c"
    using that assms by (simp add: fits32_def)
  show ?thesis
    using assms(5) f d
    by (auto simp: inc_axis32_def inc_axis_def Let_def wrap32_fits)
qed

lemma radix_carry_le:
  assumes "in_range idxs gs" and "0 \<le> by"
  shows "snd (radix_advance idxs gs by) \<le> by"
  using assms
proof (induction idxs gs "by" rule: radix_advance.induct)
  case (1 i idxs g gs b)
  then have tl: "in_range idxs gs" and ig: "0 \<le> i" "i < g" by (auto simp: in_range_def)
  let ?c = "snd (radix_advance idxs gs b)"
  from 1(1)[OF tl 1(3)] have cb: "?c \<le> b" .
  from radix_advance_props[OF tl 1(3)] have c0: "0 \<le> ?c" by simp
  have "(i + ?c) div g \<le> ?c"
  proof (cases "?c = 0")
    case True
    with ig show ?thesis by simp
  next
    case False
    with c0 have c1: "1 \<le> ?c" by simp
    have "g * ?c \<ge> g + ?c - 1"
    proof -
      have "0 \<le> (g - 1) * (?c - 1)" using ig c1 by simp
      then show ?thesis by (simp add: algebra_simps)
    qed
    then have "i + ?c < g * (?c + 1)" using ig by (simp add: algebra_simps)
    show ?thesis
    proof (rule ccontr)
      assume "\<not> (i + ?c) div g \<le> ?c"
      then have "?c + 1 \<le> (i + ?c) div g" by simp
      then have "g * (?c + 1) \<le> g * ((i + ?c) div g)"
        using ig by (intro mult_left_mono) simp_all
      also have "\<dots> = (i + ?c) - (i + ?c) mod g"
        by (rule minus_mod_eq_mult_div[symmetric])
      also have "\<dots> \<le> i + ?c"
        using ig pos_mod_sign[of g "i + ?c"] by linarith
      finally show False using \<open>i + ?c < g * (?c + 1)\<close> by simp
    qed
  qed
  with cb show ?case by (simp add: split_beta)
qed (auto simp: in_range_def)

lemma inc_loop32_radix:
  assumes "in_range idxs gs" and "0 \<le> by" and "no_overflow gs by"
  shows "inc_loop32 (rev (zip idxs gs)) acc by =
           Inr (acc @ rev (fst (radix_advance idxs gs by)), snd (radix_advance idxs gs by))"
  using assms
proof (induction idxs gs "by" arbitrary: acc rule: radix_advance.induct)
  case (1 i idxs g gs b)
  then have tl: "in_range idxs gs" and ig: "0 \<le> i" "i < g"
    and no: "no_overflow gs b" and gb: "g + b \<le> 2 ^ 31" "2 * g < 2 ^ 31"
    by (auto simp: in_range_def no_overflow_def)
  let ?c = "snd (radix_advance idxs gs b)"
  from radix_advance_props[OF tl 1(3)] have c0: "0 \<le> ?c" by simp
  from radix_carry_le[OF tl 1(3)] have cb: "?c \<le> b" .
  have fc: "fits32 ?c" using c0 cb gb ig by (simp add: fits32_def)
  have a: "inc_axis32 i g ?c = Inr ((i + ?c) mod g, (i + ?c) div g)"
  proof -
    have "inc_axis32 i g ?c = inc_axis i g ?c"
      by (rule inc_axis32_eq_inc_axis) (use ig c0 cb gb fc in auto)
    also have "\<dots> = Inr ((i + ?c) mod g, (i + ?c) div g)"
      by (rule inc_axis_divmod) (use ig c0 in auto)
    finally show ?thesis .
  qed
  have app: "inc_loop32 (ps @ qs) ac c =
     (case inc_loop32 ps ac c of Inl e \<Rightarrow> Inl e | Inr (ac', c') \<Rightarrow> inc_loop32 qs ac' c')"
    for ps qs ac c
    by (induction ps ac c rule: inc_loop32.induct) (auto split: sum.splits)
  show ?case
    using 1(1)[OF tl 1(3) no] a
    by (simp add: app split: prod.splits)
qed (auto simp: in_range_def)

lemma inc_grid32_eq_radix:
  assumes "in_range idxs gs" and "0 \<le> by" and "no_overflow gs by"
  shows "inc_grid32 idxs gs by = Inr (fst (radix_advance idxs gs by))"
  using assms inc_loop32_radix[OF assms, of "[]"] by (simp add: inc_grid32_def in_range_def)

lemma inc_grid32_eq_inc_grid:
  assumes "in_range idxs gs" and "0 \<le> by" and "no_overflow gs by"
  shows "inc_grid32 idxs gs by = inc_grid idxs gs by"
  using inc_grid32_eq_radix[OF assms] inc_grid_eq_radix[OF assms(1,2)] by simp

lemma no_overflow_mono: "no_overflow gs b \<Longrightarrow> a \<le> b \<Longrightarrow> no_overflow gs a"
  by (induction gs) (auto simp: no_overflow_def)


lemma and_then_Inr [simp]: "and_then (Inr x) f = f x"
  by (simp add: and_then_def)

lemma and_then_Inl [simp]: "and_then (Inl e) f = Inl e"
  by (simp add: and_then_def)



lemma map_err_length: "map_err f xs = Inr ys \<Longrightarrow> length ys = length xs"
  by (induction xs arbitrary: ys) (auto split: sum.splits)





lemma slice_eq_iff: "slice_eq a b \<longleftrightarrow> a = b"
  by (cases a; cases b) (simp add: slice_eq_def)

lemma foldl_and: "foldl (\<and>) x xs \<longleftrightarrow> x \<and> list_all (\<lambda>b. b) xs"
  by (induction xs arbitrary: x) auto

lemma reduce_and_same:
  assumes "length old = length new" and "new \<noteq> []"
  shows "reduce_and (map (\<lambda>(a, b). slice_eq a b) (zip old new)) = Inr (old = new)"
proof -
  from assms obtain a old' b new' where e: "old = a # old'" "new = b # new'" "length old' = length new'"
    by (cases old; cases new) auto
  have "list_all (\<lambda>b. b) (map (\<lambda>(a, b). slice_eq a b) (zip old' new')) \<longleftrightarrow> old' = new'"
    using e(3) by (induction old' new' rule: list_induct2) (auto simp: slice_eq_iff)
  then show ?thesis using e by (auto simp: foldl_and slice_eq_iff)
qed







lemma length_unravel [simp]: "length (unravel gs s) = length gs"
  by (induction gs) auto


















lemma filter_concat_map: "filter P (concat (map f xs)) = concat (map (\<lambda>x. filter P (f x)) xs)"
  by (induction xs) auto

lemma filter_map_none: "(\<And>x. \<not> P (f x)) \<Longrightarrow> filter P (map f xs) = []"
  by (induction xs) auto

lemma filter_map_all: "(\<And>x. P (f x)) \<Longrightarrow> filter P (map f xs) = map f xs"
  by (induction xs) auto



lemma step_calls_commit:
  "filter is_commit (step_calls grid num_steps mcs in_specs in_brefs out_brefs s)
   = (if \<not> list_all is_index_invariant out_brefs then [CommitSmem] else [])"
  by (simp add: step_calls_def step_stores_def step_fetches_def filter_map_none filter_map_all)



text \<open>
  Claim C3, as stated, fails on 32-bit indices: from the in-range index \<open>1\<close> on an axis of
  size \<open>3\<close>, \<open>by = 2^31 - 1\<close> makes \<^verbatim>\<open>idx + carry\<close> wrap to \<open>-2^31\<close>, which the
  fast path returns unchanged, while the plain mixed-radix definition gives \<open>2\<close> (and
  division and remainder of the wrapped value would give \<open>-2\<close> with carry
  \<open>-715827882\<close>).
\<close>

theorem inc_grid32_dual_path_counterexample:
  "in_range [1] [3] \<and> (0::int) \<le> 2147483647
   \<and> inc_grid32 [1] [3] 2147483647 = Inr [- 2147483648]
   \<and> fst (radix_advance [1] [3] 2147483647) = [2]
   \<and> inc_grid32 [1] [3] 2147483647 \<noteq> Inr (fst (radix_advance [1] [3] 2147483647))
   \<and> (lax_rem (- 2147483648) 3, lax_div (- 2147483648) 3) = (- 2, - 715827882)"
  by (simp add: in_range_def inc_grid32_def inc_axis32_def fits32_def wrap32_def
      lax_rem_def lax_div_def)

text \<open>
  Claim C3, amended. For an in-range index tuple and \<open>by \<ge> 0\<close> such that on every axis
  \<open>size + by \<le> 2^31\<close> and \<open>2 * size < 2^31\<close> (no 32-bit overflow), \<^verbatim>\<open>_inc_grid\<close> with
  its fast path (no overflow of the axis, or exactly one: subtract the size, carry 1) and
  its division/remainder fallback returns the digits of the plain mixed-radix counter that
  computes every axis by division and remainder. Whichever branch an axis takes, the result
  is the same.
\<close>

theorem inc_grid32_dual_path:
  assumes "in_range indices grid" and "0 \<le> by" and "no_overflow grid by"
  shows "inc_grid32 indices grid by = Inr (fst (radix_advance indices grid by))"
  using assms by (rule inc_grid32_eq_radix)

theorem inc_grid32_dual_path_witness:
  "in_range [1, 2] [2, 3] \<and> no_overflow [2, 3] 7 \<and> inc_grid32 [1, 2] [2, 3] 7 = Inr [0, 0]
   \<and> in_range [0, 1] [2, 3] \<and> no_overflow [2, 3] 3 \<and> inc_grid32 [0, 1] [2, 3] 3 = Inr [1, 1]
   \<and> in_range [1] [3] \<and> no_overflow [3] 2147483645
   \<and> inc_grid32 [1] [3] 2147483645 = Inr [0]"
proof -
  have h1: "in_range [1, 2] [2, 3]" and h2: "in_range [0, 1] [2, 3]" and h3: "in_range [1] [3]"
    by (simp_all add: in_range_def)
  have n1: "no_overflow [2, 3] 7" and n2: "no_overflow [2, 3] 3"
    and n3: "no_overflow [3] 2147483645"
    by (simp_all add: no_overflow_def)
  from inc_grid32_dual_path[OF h1 _ n1] inc_grid32_dual_path[OF h2 _ n2]
    inc_grid32_dual_path[OF h3 _ n3] h1 h2 h3 n1 n2 n3
  show ?thesis by simp
qed

text \<open>
  Claim C2, as stated, fails on 32-bit indices: from the in-range index \<open>1\<close> on an axis of
  size \<open>3\<close>, advancing by \<open>2^31 - 2\<close> and then by \<open>1\<close> gives \<open>2\<close>, while advancing by
  their sum \<open>2^31 - 1\<close> gives \<open>-2^31\<close>.
\<close>

theorem inc_grid32_additive_counterexample:
  "in_range [1] [3] \<and> (0::int) \<le> 2147483646 \<and> (0::int) \<le> 1
   \<and> inc_grid32 [1] [3] 2147483646 = Inr [1]
   \<and> inc_grid32 [1] [3] 1 = Inr [2]
   \<and> inc_grid32 [1] [3] (2147483646 + 1) = Inr [- 2147483648]"
  by (simp add: in_range_def inc_grid32_def inc_axis32_def fits32_def wrap32_def
      lax_rem_def lax_div_def)

text \<open>
  Claim C2, amended. For an in-range index tuple and nonnegative \<open>a\<close> and \<open>b\<close> such that on
  every axis \<open>size + (a + b) \<le> 2^31\<close> and \<open>2 * size < 2^31\<close> (no 32-bit overflow),
  advancing by \<open>a\<close> and then by \<open>b\<close> gives what advancing by \<open>a + b\<close> gives; both advances
  succeed and stay in range. Under the same bound for \<open>a\<close> plus the product of the grid
  sizes, advancing by that much more changes nothing (wraparound modulo the product).
\<close>

theorem inc_grid32_additive:
  assumes "in_range indices grid" and "0 \<le> a" and "0 \<le> b" and "no_overflow grid (a + b)"
  shows "(\<exists>mid. inc_grid32 indices grid a = Inr mid \<and> in_range mid grid
            \<and> inc_grid32 mid grid b = inc_grid32 indices grid (a + b))
       \<and> (\<exists>res. inc_grid32 indices grid (a + b) = Inr res \<and> in_range res grid)
       \<and> (no_overflow grid (a + prod_list grid) \<longrightarrow>
            inc_grid32 indices grid (a + prod_list grid) = inc_grid32 indices grid a)"
proof -
  let ?mid = "fst (radix_advance indices grid a)"
  have na: "no_overflow grid a" and nb: "no_overflow grid b"
    using assms(2,3) by (auto intro: no_overflow_mono[OF assms(4)])
  have mid: "in_range ?mid grid" using radix_advance_props[OF assms(1,2)] by simp
  have ab: "0 \<le> a + b" using assms by simp
  have 1: "inc_grid32 indices grid a = Inr ?mid"
    by (rule inc_grid32_eq_radix[OF assms(1,2) na])
  have 2: "inc_grid32 ?mid grid b = Inr (fst (radix_advance ?mid grid b))"
    by (rule inc_grid32_eq_radix[OF mid assms(3) nb])
  have 3: "inc_grid32 indices grid (a + b) = Inr (fst (radix_advance indices grid (a + b)))"
    by (rule inc_grid32_eq_radix[OF assms(1) ab assms(4)])
  have 4: "fst (radix_advance ?mid grid b) = fst (radix_advance indices grid (a + b))"
    using radix_advance_add[OF assms(1)] by simp
  have 5: "in_range (fst (radix_advance indices grid (a + b))) grid"
    using radix_advance_props[OF assms(1) ab] by simp
  have p: "0 \<le> prod_list grid"
    using assms(1) by (induction indices grid rule: list_induct2') (auto simp: in_range_def)
  have 6: "inc_grid32 indices grid (a + prod_list grid) = inc_grid32 indices grid a"
    if n: "no_overflow grid (a + prod_list grid)"
  proof -
    have "inc_grid32 indices grid (a + prod_list grid)
          = Inr (fst (radix_advance indices grid (a + prod_list grid * 1)))"
      using inc_grid32_eq_radix[OF assms(1) _ n] assms(2) p by simp
    also have "\<dots> = Inr (fst (radix_advance indices grid a))"
      using radix_advance_wrap[OF assms(1), of a 1] by simp
    finally show ?thesis using 1 by simp
  qed
  from 1 2 3 4 5 6 mid show ?thesis by simp
qed

theorem inc_grid32_additive_witness:
  "in_range [1, 2] [2, 3] \<and> no_overflow [2, 3] (2 + 5) \<and> inc_grid32 [1, 2] [2, 3] 2 = Inr [0, 1]
   \<and> inc_grid32 [0, 1] [2, 3] 5 = Inr [0, 0] \<and> inc_grid32 [1, 2] [2, 3] (2 + 5) = Inr [0, 0]
   \<and> no_overflow [2, 3] (2 + prod_list [2, 3])
   \<and> inc_grid32 [1, 2] [2, 3] (2 + prod_list [2, 3]) = Inr [0, 1]"
proof -
  have h: "in_range [1, 2] [2, 3]" by (simp add: in_range_def)
  have n: "no_overflow [2, 3] (2 + 5)" and n': "no_overflow [2, 3] (2 + prod_list [2, 3])"
    by (simp_all add: no_overflow_def)
  have m: "inc_grid32 [1, 2] [2, 3] 2 = Inr [0, 1]"
    by (simp add: inc_grid32_def inc_axis32_def fits32_def wrap32_def)
  have e: "inc_grid32 [1, 2] [2, 3] 7 = Inr [0, 0]"
    by (simp add: inc_grid32_def inc_axis32_def fits32_def wrap32_def lax_rem_def lax_div_def)
  from inc_grid32_additive[OF h _ _ n] m e h n n' show ?thesis by simp
qed

text \<open>
  Claim C9. The size component of every dimension of a computed bulk-memory slice is the
  operand's block shape. So for two slices computed for the same operand (the record of an
  earlier store and the region of the current step), the comparison that drives store
  elision holds exactly when the start offsets agree.
\<close>

theorem store_slice_sizes_fixed:
  "(compute_gmem_slice bref indices = Inr slices \<longrightarrow>
      map slice_size slices = block_shape (spec bref))
   \<and> (compute_gmem_slice bref old_indices = Inr old_slices
        \<and> compute_gmem_slice bref indices = Inr new_slices
        \<and> block_shape (spec bref) \<noteq> [] \<longrightarrow>
      reduce_and (map (\<lambda>(old, new). slice_eq old new) (zip old_slices new_slices))
        = Inr (map slice_start old_slices = map slice_start new_slices))"
proof -
  have sz: "map slice_size sl = block_shape (spec bref)"
    if "compute_gmem_slice bref idx = Inr sl" for idx sl
  proof -
    from that obtain vs where "length vs = length (block_shape (spec bref))"
      and "sl = map (\<lambda>(i, sz). Slice (i * sz) sz) (zip vs (block_shape (spec bref)))"
      by (auto simp: compute_gmem_slice_def split: sum.splits if_splits)
    moreover have "map (\<lambda>p. snd p) (zip vs (block_shape (spec bref))) = block_shape (spec bref)"
      if "length vs = length (block_shape (spec bref))"
      using that by (simp add: map_snd_zip)
    ultimately show ?thesis by (simp add: split_beta comp_def)
  qed
  have "reduce_and (map (\<lambda>(old, new). slice_eq old new) (zip old_slices new_slices))
        = Inr (map slice_start old_slices = map slice_start new_slices)"
    if o: "compute_gmem_slice bref old_indices = Inr old_slices"
      and n: "compute_gmem_slice bref indices = Inr new_slices"
      and ne: "block_shape (spec bref) \<noteq> []"
  proof -
    from sz[OF o] sz[OF n] have same: "map slice_size old_slices = map slice_size new_slices"
      by simp
    then have len: "length old_slices = length new_slices" by (rule map_eq_imp_length_eq)
    from sz[OF n] ne have nonempty: "new_slices \<noteq> []" by auto
    have "old_slices = new_slices \<longleftrightarrow> map slice_start old_slices = map slice_start new_slices"
      using len same
      by (induction old_slices new_slices rule: list_induct2) (auto simp: Slice.expand)
    with reduce_and_same[OF len nonempty] show ?thesis by simp
  qed
  with sz show ?thesis by blast
qed

theorem store_slice_sizes_fixed_witness:
  "compute_gmem_slice (ex_operand ex_spec_moving 1 1) [2] = Inr [Slice 8 4]
   \<and> compute_gmem_slice (ex_operand ex_spec_moving 1 1) [1] = Inr [Slice 4 4]
   \<and> map slice_size [Slice 8 4] = block_shape (spec (ex_operand ex_spec_moving 1 1))
   \<and> reduce_and (map (\<lambda>(old, new). slice_eq old new) (zip [Slice 4 4] [Slice 8 4])) = Inr False"
proof -
  have a: "compute_gmem_slice (ex_operand ex_spec_moving 1 1) [2] = Inr [Slice 8 4]"
    and b: "compute_gmem_slice (ex_operand ex_spec_moving 1 1) [1] = Inr [Slice 4 4]"
    and c: "block_shape (spec (ex_operand ex_spec_moving 1 1)) \<noteq> []"
    by (simp_all add: compute_gmem_slice_def call_index_map_def ex_operand_def ex_spec_moving_def)
  from store_slice_sizes_fixed[of "ex_operand ex_spec_moving 1 1" "[2]" "[Slice 8 4]" "[1]" "[Slice 4 4]" "[Slice 8 4]"]
    a b c
  show ?thesis by simp
qed

text \<open>
  Claim C7. A pipeline built with \<^verbatim>\<open>max_concurrent_steps\<close> above the number of steps
  is the pipeline built with \<^verbatim>\<open>max_concurrent_steps\<close> equal to the number of steps; in
  every case the depth the pipeline runs with is the minimum of the configured depth and the
  number of steps.
\<close>

theorem clamping_transparent:
  "(prod_list grid < max_concurrent_steps \<longrightarrow>
      emit_pipeline grid in_specs out_specs max_concurrent_steps
        = emit_pipeline grid in_specs out_specs (prod_list grid))
   \<and> emit_pipeline grid in_specs out_specs max_concurrent_steps
        = pipeline grid (prod_list grid) (min max_concurrent_steps (prod_list grid))
            in_specs out_specs"
  by (auto simp: emit_pipeline_def Let_def min_def)

theorem clamping_transparent_witness:
  "prod_list [3] < (5::int)
   \<and> emit_pipeline [3] [ex_spec_moving] [ex_spec_fixed] 5
       = emit_pipeline [3] [ex_spec_moving] [ex_spec_fixed] 3
   \<and> emit_pipeline [3] [ex_spec_moving] [ex_spec_fixed] 5
       = pipeline [3] 3 3 [ex_spec_moving] [ex_spec_fixed]"
proof -
  have h: "prod_list [3] < (5::int)" by simp
  note c = clamping_transparent[of "[3]" 5 "[ex_spec_moving]" "[ex_spec_fixed]"]
  have m: "prod_list [3::int] = 3" "min (5::int) 3 = 3" by simp_all
  have t: "(3::int) < 5" by simp
  from c[unfolded m] h t show ?thesis by blast
qed

lemma eval_iexpr_unused:
  assumes "\<forall>k\<in>set (axes_of e). n \<le> k" and "length a1 = n" and "length a2 = n"
  shows "eval_iexpr a1 e = eval_iexpr a2 e"
  using assms by (induction e) auto

lemma map_err_cong: "(\<And>x. x \<in> set xs \<Longrightarrow> f x = g x) \<Longrightarrow> map_err f xs = map_err g xs"
  by (induction xs) (auto split: sum.splits)

lemma is_index_invariant_iff:
  "is_index_invariant b \<longleftrightarrow>
     (\<forall>e\<in>set (index_map (spec b)). \<forall>k\<in>set (axes_of e). length (bref_grid b) \<le> k)"
proof -
  have "is_index_invariant b \<longleftrightarrow>
          (\<forall>k < length (bref_grid b). \<forall>e\<in>set (index_map (spec b)). k \<notin> set (axes_of e))"
    by (auto simp: is_index_invariant_def uses_arguments_def list_ex_iff)
  then show ?thesis by (metis not_less)
qed

lemma invariant_region_constant:
  assumes "is_index_invariant b" and "length i1 = length (bref_grid b)"
    and "length i2 = length (bref_grid b)"
  shows "compute_gmem_slice b i1 = compute_gmem_slice b i2"
proof -
  have "call_index_map (index_map (spec b)) i1 = call_index_map (index_map (spec b)) i2"
    unfolding call_index_map_def
    by (rule map_err_cong)
       (use assms is_index_invariant_iff[of b] eval_iexpr_unused in blast)
  then show ?thesis by (simp add: compute_gmem_slice_def)
qed

text \<open>
  Claim C6. \<^verbatim>\<open>is_index_invariant\<close> holds exactly when the analysis of the index map
  finds no grid axis that an output coordinate reads. When it holds, the computed region is
  the same at all grid indices; hence an index map whose region differs between two index
  tuples is not index-invariant.
\<close>

theorem index_invariance_static:
  "(is_index_invariant bref \<longleftrightarrow>
      (\<forall>k < length (bref_grid bref). \<forall>e\<in>set (index_map (spec bref)). k \<notin> set (axes_of e)))
   \<and> (is_index_invariant bref \<longrightarrow>
        (\<forall>i1 i2. length i1 = length (bref_grid bref) \<and> length i2 = length (bref_grid bref) \<longrightarrow>
                  compute_gmem_slice bref i1 = compute_gmem_slice bref i2))
   \<and> ((\<exists>i1 i2. length i1 = length (bref_grid bref) \<and> length i2 = length (bref_grid bref)
                 \<and> compute_gmem_slice bref i1 \<noteq> compute_gmem_slice bref i2) \<longrightarrow>
        \<not> is_index_invariant bref)"
proof -
  have "is_index_invariant bref \<longleftrightarrow>
      (\<forall>k < length (bref_grid bref). \<forall>e\<in>set (index_map (spec bref)). k \<notin> set (axes_of e))"
    unfolding is_index_invariant_iff by (metis not_less)
  then show ?thesis using invariant_region_constant[of bref] by blast
qed

theorem index_invariance_static_witness:
  "is_index_invariant (ex_operand ex_spec_fixed 1 1)
   \<and> compute_gmem_slice (ex_operand ex_spec_fixed 1 1) [0]
       = compute_gmem_slice (ex_operand ex_spec_fixed 1 1) [2]
   \<and> \<not> is_index_invariant (ex_operand ex_spec_moving 1 1)
   \<and> compute_gmem_slice (ex_operand ex_spec_moving 1 1) [0]
       \<noteq> compute_gmem_slice (ex_operand ex_spec_moving 1 1) [2]"
proof -
  have f: "\<forall>k < length (bref_grid (ex_operand ex_spec_fixed 1 1)).
             \<forall>e\<in>set (index_map (spec (ex_operand ex_spec_fixed 1 1))). k \<notin> set (axes_of e)"
    by (simp add: ex_operand_def ex_spec_fixed_def)
  have m: "compute_gmem_slice (ex_operand ex_spec_moving 1 1) [0]
           \<noteq> compute_gmem_slice (ex_operand ex_spec_moving 1 1) [2]"
    by (simp add: compute_gmem_slice_def call_index_map_def ex_operand_def ex_spec_moving_def)
  have l: "length [0::int] = length (bref_grid (ex_operand ex_spec_fixed 1 1))"
    "length [2::int] = length (bref_grid (ex_operand ex_spec_fixed 1 1))"
    "length [0::int] = length (bref_grid (ex_operand ex_spec_moving 1 1))"
    "length [2::int] = length (bref_grid (ex_operand ex_spec_moving 1 1))"
    by (simp_all add: ex_operand_def)
  from index_invariance_static[of "ex_operand ex_spec_fixed 1 1"]
    index_invariance_static[of "ex_operand ex_spec_moving 1 1"] f m l
  show ?thesis by blast
qed










lemma steady_commit:
  assumes "steady = concat (map (\<lambda>k. step_calls grid num_steps mcs in_specs in_brefs out_brefs (int k)) ks)"
  shows "filter is_commit steady
         = concat (map (\<lambda>k. if \<not> list_all is_index_invariant out_brefs then [CommitSmem] else []) ks)"
  using assms by (simp add: filter_concat_map step_calls_commit)



















end
